theory Spec2Isabelle
  imports Main "HOL-Library.Word"
begin

section \<open>VROOM amounts (structures/vroom/amount.h)\<close>

text \<open>
  The header declares an abstract class \<open>AmountImpl\<close> with two implementations,
  \<open>AmountDims\<close> (a \<open>std::vector<Capacity>\<close>) and \<open>AmountEmpty\<close> (no data), and a
  wrapper \<open>Amount\<close> that owns one implementation object through a
  \<open>std::unique_ptr<AmountImpl>\<close>.

  The scalar type \<open>Capacity\<close> comes from \<open>structures/typedefs.h\<close>, which is not among
  the sources. The header uses it only through \<open>0\<close>, \<open><\<close>, \<open>>\<close>, \<open>!=\<close>, \<open>+=\<close>, \<open>-=\<close>
  and \<open>std::max\<close>, so it is a type parameter \<open>'a\<close> here, of sort \<open>linorder\<close> where it
  is compared and \<open>ab_group_add\<close> where it is added. The instance \<open>int\<close> is an
  integer type whose arithmetic does not overflow (a signed fixed-width \<open>Capacity\<close>
  behaves so wherever C++ defines its arithmetic); the instance \<open>'w word\<close> is an
  unsigned \<open>'w\<close>-bit integer with wrap-around.
\<close>

subsection \<open>Objects, the store, errors\<close>

text \<open>The two implementation classes; \<open>elems\<close> is the private vector of \<open>AmountDims\<close>.\<close>

datatype 'a AmountImpl = AmountEmpty | AmountDims (elems: "'a list")

text \<open>
  The methods mutate the receiver in place and receive \<open>other\<close> by reference, and the
  receiver and \<open>other\<close> may be one object (\<open>a.update_to_maxed(a)\<close>). Implementation
  objects therefore live in a store, a list indexed by address; \<open>new\<close> appends an
  object, so that its address is the length of the store before. Destruction is not
  modelled: an object stays in the store.
\<close>

type_synonym 'a store = "'a AmountImpl list"

text \<open>The wrapper: its only member is the owning pointer.\<close>

record Amount =
  m_impl :: nat

text \<open>
  \<open>assert\<close> is a macro of \<open><cassert>\<close>: it checks its condition in a build without
  \<open>NDEBUG\<close> (\<open>Debug\<close>), and is empty in a build with \<open>NDEBUG\<close>.
\<close>

datatype build = Debug | NDEBUG

text \<open>
  \<open>AssertionFailed\<close>: an \<open>assert\<close> of the source is checked and does not hold.
  \<open>UndefinedBehaviour\<close>: the call has no defined result in C++: a pointer to no
  object, the \<open>static_cast\<close> of an \<open>AmountEmpty\<close> to \<open>AmountDims const &\<close>, or
  \<open>operator[]\<close> of a vector at an index that is not below its size.
\<close>

datatype error = AssertionFailed | UndefinedBehaviour

definition new :: "'a store \<Rightarrow> 'a AmountImpl \<Rightarrow> nat \<times> 'a store" where
  "new s obj = (length s, s @ [obj])"

subsection \<open>AmountDims\<close>

text \<open>\<open>AmountDims(std::size_t size) : elems(size, 0)\<close>\<close>

definition AmountDims_size :: "nat \<Rightarrow> ('a::zero) AmountImpl" where
  "AmountDims_size n = AmountDims (replicate n 0)"

text \<open>\<open>AmountDims(std::vector<Capacity> elems) : elems(elems)\<close>\<close>

definition AmountDims_elems :: "'a list \<Rightarrow> 'a AmountImpl" where
  "AmountDims_elems es = AmountDims es"

text \<open>
  The loop of \<open>is_less\<close>, from index \<open>i\<close> on, and the \<open>return\<close> after it;
  \<open>last_rank\<close> is \<open>elems.size() - 1\<close>. The call is reached only with \<open>es\<close> not empty, so
  every index into \<open>es\<close> is below its size; an index into \<open>os\<close> is below its size
  when the two sizes are equal, and is tested here since without the assertion they
  need not be.
\<close>

function is_less_loop :: "('a::linorder) list \<Rightarrow> 'a list \<Rightarrow> nat \<Rightarrow> error + bool" where
  "is_less_loop es os i =
     (if i < length es - 1 then
        (if length os \<le> i then Inl UndefinedBehaviour
         else if es ! i < os ! i then Inr True
         else if es ! i > os ! i then Inr False
         else is_less_loop es os (i + 1))
      else if length os \<le> length es - 1 then Inl UndefinedBehaviour
      else Inr (es ! (length es - 1) < os ! (length es - 1)))"
  by pat_completeness auto
termination
  by (relation "measure (\<lambda>(es, os, i). length es - 1 - i)") auto

text \<open>
  \<open>AmountDims::is_less\<close> on the receiver's \<open>elems\<close> and the object \<open>other\<close>: the
  assertion, the test for an empty vector, the loop. The source writes
  \<open>static_cast<AmountDims const &>(other)\<close> where it reads \<open>other\<close>: in the assertion
  and at each \<open>other.elems[i]\<close>. With an \<open>AmountEmpty\<close> at \<open>other\<close> the cast is
  undefined where it is evaluated; in the build without assertions a receiver
  with no dimension never evaluates it.
\<close>

definition AmountDims_is_less ::
  "build \<Rightarrow> ('a::linorder) list \<Rightarrow> 'a AmountImpl \<Rightarrow> error + bool" where
  "AmountDims_is_less bld es other =
     (case other of
        AmountEmpty \<Rightarrow>
          if bld = NDEBUG \<and> es = [] then Inr False else Inl UndefinedBehaviour
      | AmountDims os \<Rightarrow>
          if bld = Debug \<and> length es \<noteq> length os then Inl AssertionFailed
          else if es = [] then Inr False
          else is_less_loop es os 0)"

text \<open>The loop of \<open>is_equal\<close>, from index \<open>i\<close> on.\<close>

function is_equal_loop :: "'a list \<Rightarrow> 'a list \<Rightarrow> nat \<Rightarrow> error + bool" where
  "is_equal_loop es os i =
     (if i < length es then
        (if length os \<le> i then Inl UndefinedBehaviour
         else if es ! i \<noteq> os ! i then Inr False
         else is_equal_loop es os (i + 1))
      else Inr True)"
  by pat_completeness auto
termination
  by (relation "measure (\<lambda>(es, os, i). length es - i)") auto

definition AmountDims_is_equal :: "build \<Rightarrow> 'a list \<Rightarrow> 'a AmountImpl \<Rightarrow> error + bool" where
  "AmountDims_is_equal bld es other =
     (case other of
        AmountEmpty \<Rightarrow>
          if bld = NDEBUG \<and> es = [] then Inr True else Inl UndefinedBehaviour
      | AmountDims os \<Rightarrow>
          if bld = Debug \<and> length es \<noteq> length os then Inl AssertionFailed
          else is_equal_loop es os 0)"

text \<open>
  The loops of \<open>add\<close>, \<open>sub\<close> and \<open>update_to_maxed\<close> are one loop,
  \<open>for (i = 0; i < elems.size(); ++i) elems[i] = f(elems[i], other.elems[i])\<close>,
  with \<open>f\<close> the sum, the difference and \<open>std::max\<close>. Each iteration reads both
  vectors from the store and writes the receiver's back, so that a call whose
  \<open>other\<close> is the receiver itself reads what it has written.
\<close>

function dims_loop ::
  "('a \<Rightarrow> 'a \<Rightarrow> 'a) \<Rightarrow> 'a store \<Rightarrow> nat \<Rightarrow> nat \<Rightarrow> nat \<Rightarrow> error + 'a store" where
  "dims_loop f s this other i =
     (if i < length (elems (s ! this)) then
        (if length (elems (s ! other)) \<le> i then Inl UndefinedBehaviour
         else dims_loop f
           (s[this := AmountDims
                ((elems (s ! this))[i := f (elems (s ! this) ! i) (elems (s ! other) ! i)])])
           this other (i + 1))
      else Inr s)"
  by pat_completeness auto
termination
proof (relation "measure (\<lambda>(f, s, this, other, i). length (elems (s ! this)) - i)")
  show "wf (measure (\<lambda>(f, s, this, other, i). length (elems (s ! this)) - i))"
    by simp
next
  fix f :: "'a \<Rightarrow> 'a \<Rightarrow> 'a" and s :: "'a store" and this other i :: nat
  assume less: "i < length (elems (s ! this))"
  let ?v = "AmountDims
    ((elems (s ! this))[i := f (elems (s ! this) ! i) (elems (s ! other) ! i)])"
  have "length (elems (s[this := ?v] ! this)) = length (elems (s ! this))"
  proof (cases "this < length s")
    case True
    then show ?thesis by simp
  next
    case False
    then have "s[this := ?v] = s" by (simp add: list_update_beyond)
    then show ?thesis by simp
  qed
  with less show "((f, s[this := ?v], this, other, i + 1), (f, s, this, other, i))
      \<in> measure (\<lambda>(f, s, this, other, i). length (elems (s ! this)) - i)"
    by simp
qed

text \<open>\<open>std::max(a, b)\<close> is \<open>(a < b) ? b : a\<close>.\<close>

definition std_max :: "('a::linorder) \<Rightarrow> 'a \<Rightarrow> 'a" where
  "std_max a b = (if a < b then b else a)"

text \<open>
  The three mutating methods of \<open>AmountDims\<close>, called on the object at \<open>this\<close> (known
  to be an \<open>AmountDims\<close>) with the object at \<open>other\<close>: the assertion, the loop; the
  cast as in \<open>is_less\<close>.
\<close>

definition AmountDims_add ::
  "build \<Rightarrow> ('a::ab_group_add) store \<Rightarrow> nat \<Rightarrow> nat \<Rightarrow> error + 'a store" where
  "AmountDims_add bld s this other =
     (case s ! other of
        AmountEmpty \<Rightarrow>
          if bld = NDEBUG \<and> elems (s ! this) = [] then Inr s else Inl UndefinedBehaviour
      | AmountDims os \<Rightarrow>
          if bld = Debug \<and> length (elems (s ! this)) \<noteq> length os then Inl AssertionFailed
          else dims_loop (\<lambda>x y. x + y) s this other 0)"

definition AmountDims_sub ::
  "build \<Rightarrow> ('a::ab_group_add) store \<Rightarrow> nat \<Rightarrow> nat \<Rightarrow> error + 'a store" where
  "AmountDims_sub bld s this other =
     (case s ! other of
        AmountEmpty \<Rightarrow>
          if bld = NDEBUG \<and> elems (s ! this) = [] then Inr s else Inl UndefinedBehaviour
      | AmountDims os \<Rightarrow>
          if bld = Debug \<and> length (elems (s ! this)) \<noteq> length os then Inl AssertionFailed
          else dims_loop (\<lambda>x y. x - y) s this other 0)"

definition AmountDims_update_to_maxed ::
  "build \<Rightarrow> ('a::linorder) store \<Rightarrow> nat \<Rightarrow> nat \<Rightarrow> error + 'a store" where
  "AmountDims_update_to_maxed bld s this other =
     (case s ! other of
        AmountEmpty \<Rightarrow>
          if bld = NDEBUG \<and> elems (s ! this) = [] then Inr s else Inl UndefinedBehaviour
      | AmountDims os \<Rightarrow>
          if bld = Debug \<and> length (elems (s ! this)) \<noteq> length os then Inl AssertionFailed
          else dims_loop std_max s this other 0)"

text \<open>\<open>std::fill(elems.begin(), elems.end(), 0)\<close>\<close>

definition AmountDims_set_zero :: "('a::zero) list \<Rightarrow> 'a AmountImpl" where
  "AmountDims_set_zero es = AmountDims (map (\<lambda>_. 0) es)"

subsection \<open>The virtual methods\<close>

text \<open>
  A virtual call selects the method by the class of the object at \<open>this\<close>. The methods
  of \<open>AmountEmpty\<close> ignore \<open>other\<close> and do nothing. Both addresses must hold an object.
\<close>

definition is_less :: "build \<Rightarrow> ('a::linorder) store \<Rightarrow> nat \<Rightarrow> nat \<Rightarrow> error + bool" where
  "is_less bld s this other =
     (if this < length s \<and> other < length s then
        (case s ! this of
           AmountEmpty \<Rightarrow> Inr False
         | AmountDims es \<Rightarrow> AmountDims_is_less bld es (s ! other))
      else Inl UndefinedBehaviour)"

definition is_equal :: "build \<Rightarrow> 'a store \<Rightarrow> nat \<Rightarrow> nat \<Rightarrow> error + bool" where
  "is_equal bld s this other =
     (if this < length s \<and> other < length s then
        (case s ! this of
           AmountEmpty \<Rightarrow> Inr True
         | AmountDims es \<Rightarrow> AmountDims_is_equal bld es (s ! other))
      else Inl UndefinedBehaviour)"

definition add :: "build \<Rightarrow> ('a::ab_group_add) store \<Rightarrow> nat \<Rightarrow> nat \<Rightarrow> error + 'a store" where
  "add bld s this other =
     (if this < length s \<and> other < length s then
        (case s ! this of
           AmountEmpty \<Rightarrow> Inr s
         | AmountDims es \<Rightarrow> AmountDims_add bld s this other)
      else Inl UndefinedBehaviour)"

definition sub :: "build \<Rightarrow> ('a::ab_group_add) store \<Rightarrow> nat \<Rightarrow> nat \<Rightarrow> error + 'a store" where
  "sub bld s this other =
     (if this < length s \<and> other < length s then
        (case s ! this of
           AmountEmpty \<Rightarrow> Inr s
         | AmountDims es \<Rightarrow> AmountDims_sub bld s this other)
      else Inl UndefinedBehaviour)"

definition update_to_maxed ::
  "build \<Rightarrow> ('a::linorder) store \<Rightarrow> nat \<Rightarrow> nat \<Rightarrow> error + 'a store" where
  "update_to_maxed bld s this other =
     (if this < length s \<and> other < length s then
        (case s ! this of
           AmountEmpty \<Rightarrow> Inr s
         | AmountDims es \<Rightarrow> AmountDims_update_to_maxed bld s this other)
      else Inl UndefinedBehaviour)"

definition set_zero :: "('a::zero) store \<Rightarrow> nat \<Rightarrow> error + 'a store" where
  "set_zero s this =
     (if this < length s then
        (case s ! this of
           AmountEmpty \<Rightarrow> Inr s
         | AmountDims es \<Rightarrow> Inr (s[this := AmountDims_set_zero es]))
      else Inl UndefinedBehaviour)"

text \<open>
  \<open>clone\<close>: \<open>new AmountDims(*this)\<close> copies the vector, \<open>new AmountEmpty()\<close> makes an
  empty object; the result is the address of the new object.
\<close>

definition clone :: "'a store \<Rightarrow> nat \<Rightarrow> error + nat \<times> 'a store" where
  "clone s this =
     (if this < length s then
        (case s ! this of
           AmountEmpty \<Rightarrow> Inr (new s AmountEmpty)
         | AmountDims es \<Rightarrow> Inr (new s (AmountDims es)))
      else Inl UndefinedBehaviour)"

subsection \<open>Amount\<close>

text \<open>\<open>Amount() : m_impl(std::make_unique<AmountEmpty>())\<close>\<close>

definition Amount_default :: "'a store \<Rightarrow> Amount \<times> 'a store" where
  "Amount_default s = (case new s AmountEmpty of (p, s') \<Rightarrow> (\<lparr>m_impl = p\<rparr>, s'))"

text \<open>
  \<open>Amount(std::unique_ptr<AmountImpl> impl)\<close>, called as
  \<open>Amount(std::make_unique<AmountDims>(size))\<close> and
  \<open>Amount(std::make_unique<AmountDims>(elems))\<close>: the object is made, then owned.
\<close>

definition Amount_impl :: "'a store \<Rightarrow> 'a AmountImpl \<Rightarrow> Amount \<times> 'a store" where
  "Amount_impl s obj = (case new s obj of (p, s') \<Rightarrow> (\<lparr>m_impl = p\<rparr>, s'))"

text \<open>The copy constructor: \<open>m_impl(other.m_impl->clone())\<close>.\<close>

definition Amount_copy :: "'a store \<Rightarrow> Amount \<Rightarrow> error + Amount \<times> 'a store" where
  "Amount_copy s other =
     (case clone s (m_impl other) of
        Inl e \<Rightarrow> Inl e
      | Inr (p, s') \<Rightarrow> Inr (\<lparr>m_impl = p\<rparr>, s'))"

text \<open>
  \<open>operator+=\<close> and \<open>operator-=\<close> return \<open>*this\<close>, which is the receiver; the model
  returns the store.
\<close>

definition operator_plus_eq ::
  "build \<Rightarrow> ('a::ab_group_add) store \<Rightarrow> Amount \<Rightarrow> Amount \<Rightarrow> error + 'a store" where
  "operator_plus_eq bld s this other = add bld s (m_impl this) (m_impl other)"

definition operator_minus_eq ::
  "build \<Rightarrow> ('a::ab_group_add) store \<Rightarrow> Amount \<Rightarrow> Amount \<Rightarrow> error + 'a store" where
  "operator_minus_eq bld s this other = sub bld s (m_impl this) (m_impl other)"

definition operator_eq :: "build \<Rightarrow> 'a store \<Rightarrow> Amount \<Rightarrow> Amount \<Rightarrow> error + bool" where
  "operator_eq bld s this other = is_equal bld s (m_impl this) (m_impl other)"

text \<open>\<open>operator<=\<close>: the right operand of \<open>||\<close> is evaluated only when the left is false.\<close>

definition operator_le ::
  "build \<Rightarrow> ('a::linorder) store \<Rightarrow> Amount \<Rightarrow> Amount \<Rightarrow> error + bool" where
  "operator_le bld s this other =
     (case is_less bld s (m_impl this) (m_impl other) of
        Inl e \<Rightarrow> Inl e
      | Inr True \<Rightarrow> Inr True
      | Inr False \<Rightarrow> is_equal bld s (m_impl this) (m_impl other))"

definition operator_lessless ::
  "build \<Rightarrow> ('a::linorder) store \<Rightarrow> Amount \<Rightarrow> Amount \<Rightarrow> error + bool" where
  "operator_lessless bld s this other = is_less bld s (m_impl this) (m_impl other)"

definition Amount_update_to_maxed ::
  "build \<Rightarrow> ('a::linorder) store \<Rightarrow> Amount \<Rightarrow> Amount \<Rightarrow> error + 'a store" where
  "Amount_update_to_maxed bld s this other =
     update_to_maxed bld s (m_impl this) (m_impl other)"

text \<open>
  \<open>get_zero\<close>: \<open>auto copy(*this); copy.m_impl->set_zero(); return copy;\<close>
  The wrapper returned is the local one (the copy that \<open>return\<close> may make of it is
  elided; it would be one more object of the same value).
\<close>

definition get_zero :: "('a::zero) store \<Rightarrow> Amount \<Rightarrow> error + Amount \<times> 'a store" where
  "get_zero s this =
     (case Amount_copy s this of
        Inl e \<Rightarrow> Inl e
      | Inr (copy, s1) \<Rightarrow>
          (case set_zero s1 (m_impl copy) of
             Inl e \<Rightarrow> Inl e
           | Inr s2 \<Rightarrow> Inr (copy, s2)))"

text \<open>The free operators: \<open>auto result(lhs); result += rhs; return result;\<close>\<close>

definition operator_plus ::
  "build \<Rightarrow> ('a::ab_group_add) store \<Rightarrow> Amount \<Rightarrow> Amount \<Rightarrow> error + Amount \<times> 'a store" where
  "operator_plus bld s lhs rhs =
     (case Amount_copy s lhs of
        Inl e \<Rightarrow> Inl e
      | Inr (result, s1) \<Rightarrow>
          (case operator_plus_eq bld s1 result rhs of
             Inl e \<Rightarrow> Inl e
           | Inr s2 \<Rightarrow> Inr (result, s2)))"

definition operator_minus ::
  "build \<Rightarrow> ('a::ab_group_add) store \<Rightarrow> Amount \<Rightarrow> Amount \<Rightarrow> error + Amount \<times> 'a store" where
  "operator_minus bld s lhs rhs =
     (case Amount_copy s lhs of
        Inl e \<Rightarrow> Inl e
      | Inr (result, s1) \<Rightarrow>
          (case operator_minus_eq bld s1 result rhs of
             Inl e \<Rightarrow> Inl e
           | Inr s2 \<Rightarrow> Inr (result, s2)))"

subsection \<open>Notions the statements use\<close>

text \<open>
  Two objects have the same shape when they are of one class and, for \<open>AmountDims\<close>,
  of one length.
\<close>

definition same_shape :: "'a AmountImpl \<Rightarrow> 'a AmountImpl \<Rightarrow> bool" where
  "same_shape x y =
     (case x of
        AmountEmpty \<Rightarrow> (case y of AmountEmpty \<Rightarrow> True | AmountDims os \<Rightarrow> False)
      | AmountDims es \<Rightarrow> (case y of AmountEmpty \<Rightarrow> False | AmountDims os \<Rightarrow> length es = length os))"

text \<open>The object \<open>x\<close> combined with \<open>y\<close> dimension by dimension.\<close>

definition elementwise :: "('a \<Rightarrow> 'a \<Rightarrow> 'a) \<Rightarrow> 'a AmountImpl \<Rightarrow> 'a AmountImpl \<Rightarrow> 'a AmountImpl" where
  "elementwise f x y =
     (case x of
        AmountEmpty \<Rightarrow> AmountEmpty
      | AmountDims es \<Rightarrow> AmountDims (map2 f es (elems y)))"

text \<open>The object of the class and length of \<open>x\<close> whose every dimension is zero.\<close>

definition zero_like :: "('a::zero) AmountImpl \<Rightarrow> 'a AmountImpl" where
  "zero_like x =
     (case x of
        AmountEmpty \<Rightarrow> AmountEmpty
      | AmountDims es \<Rightarrow> AmountDims (replicate (length es) 0))"

section \<open>The loops\<close>


text \<open>
  Each loop is unfolded one iteration at a time (\<open>subst\<close>), so its equation is taken
  out of the simplifier's rules.
\<close>

declare is_less_loop.simps [simp del] is_equal_loop.simps [simp del] dims_loop.simps [simp del]

text \<open>\<open>is_equal\<close> from index \<open>i\<close> on compares the two rests.\<close>

lemma is_equal_loop_drop:
  "length es = length os \<Longrightarrow> is_equal_loop es os i = Inr (drop i es = drop i os)"
proof (induction es os i rule: is_equal_loop.induct)
  case (1 es os i)
  show ?case
  proof (cases "i < length es")
    case True
    with "1.prems" have d: "drop i es = es ! i # drop (Suc i) es" "drop i os = os ! i # drop (Suc i) os"
      by (simp_all add: Cons_nth_drop_Suc)
    show ?thesis
    proof (cases "es ! i = os ! i")
      case eq: True
      with True "1.IH" "1.prems" d show ?thesis
        by (subst is_equal_loop.simps) simp
    next
      case False
      with True "1.prems" d show ?thesis
        by (subst is_equal_loop.simps) simp
    qed
  next
    case False
    with "1.prems" show ?thesis
      by (subst is_equal_loop.simps) simp
  qed
qed

text \<open>\<open>is_less\<close> from index \<open>i\<close> on is the strict lexicographic order of the two rests.\<close>

lemma is_less_loop_lexordp:
  "length es = length os \<Longrightarrow> es \<noteq> [] \<Longrightarrow> i \<le> length es - 1 \<Longrightarrow>
   is_less_loop es os i = Inr (ord_class.lexordp (drop i es) (drop i os))"
proof (induction es os i rule: is_less_loop.induct)
  case (1 es os i)
  from "1.prems" have il: "i < length es" "i < length os"
    by (cases es; simp)+
  then have d: "drop i es = es ! i # drop (Suc i) es" "drop i os = os ! i # drop (Suc i) os"
    by (simp_all add: Cons_nth_drop_Suc)
  show ?case
  proof (cases "i < length es - 1")
    case True
    with "1.IH" "1.prems" d show ?thesis
      by (subst is_less_loop.simps) auto
  next
    case False
    with "1.prems" have "i = length es - 1" by simp
    with il "1.prems" d show ?thesis
      by (subst is_less_loop.simps) auto
  qed
qed


text \<open>
  The mutating loop with the receiver and \<open>other\<close> two objects: the dimensions below
  \<open>i\<close> are done, the others are combined with those of \<open>other\<close>.
\<close>

lemma dims_loop_distinct:
  assumes "this \<noteq> other" "this < length s" "other < length s"
    and "s ! this = AmountDims es" "s ! other = AmountDims os"
    and "length es = length os" "i \<le> length es"
  shows "dims_loop f s this other i =
    Inr (s[this := AmountDims (take i es @ map2 f (drop i es) (drop i os))])"
  using assms
proof (induction "length es - i" arbitrary: s es i)
  case 0
  then have "i = length es" by simp
  moreover from 0 have "s[this := AmountDims es] = s"
    by (metis list_update_id)
  ultimately show ?case using 0
    by (subst dims_loop.simps) simp
next
  case (Suc n)
  then have il: "i < length es" "i < length os" by simp_all
  let ?v = "f (es ! i) (os ! i)"
  let ?s' = "s[this := AmountDims (es[i := ?v])]"
  have step: "dims_loop f s this other i = dims_loop f ?s' this other (i + 1)"
    using il Suc.prems by (subst dims_loop.simps) simp
  have "dims_loop f ?s' this other (i + 1) =
    Inr (?s'[this := AmountDims (take (i + 1) (es[i := ?v]) @
      map2 f (drop (i + 1) (es[i := ?v])) (drop (i + 1) os))])"
    using Suc.prems Suc.hyps(2) il
    by (intro Suc.hyps(1)) simp_all
  also have "\<dots> = Inr (s[this := AmountDims (take i es @ map2 f (drop i es) (drop i os))])"
    using il
    by (simp add: take_Suc_conv_app_nth Cons_nth_drop_Suc [symmetric])
  finally show ?case using step by simp
qed

text \<open>
  The mutating loop with \<open>other\<close> the receiver itself: iteration \<open>i\<close> reads dimension
  \<open>i\<close> twice, before it writes it.
\<close>

lemma dims_loop_alias:
  assumes "this < length s" "s ! this = AmountDims es" "i \<le> length es"
  shows "dims_loop f s this this i =
    Inr (s[this := AmountDims (take i es @ map (\<lambda>x. f x x) (drop i es))])"
  using assms
proof (induction "length es - i" arbitrary: s es i)
  case 0
  then have "i = length es" by simp
  moreover from 0 have "s[this := AmountDims es] = s"
    by (metis list_update_id)
  ultimately show ?case using 0
    by (subst dims_loop.simps) simp
next
  case (Suc n)
  then have il: "i < length es" by simp
  let ?v = "f (es ! i) (es ! i)"
  let ?s' = "s[this := AmountDims (es[i := ?v])]"
  have step: "dims_loop f s this this i = dims_loop f ?s' this this (i + 1)"
    using il Suc.prems by (subst dims_loop.simps) simp
  have "dims_loop f ?s' this this (i + 1) =
    Inr (?s'[this := AmountDims (take (i + 1) (es[i := ?v]) @
      map (\<lambda>x. f x x) (drop (i + 1) (es[i := ?v])))])"
    using Suc.prems Suc.hyps(2) il
    by (intro Suc.hyps(1)) simp_all
  also have "\<dots> = Inr (s[this := AmountDims (take i es @ map (\<lambda>x. f x x) (drop i es))])"
    using il
    by (simp add: take_Suc_conv_app_nth Cons_nth_drop_Suc [symmetric])
  finally show ?case using step by simp
qed


section \<open>The methods on objects of one shape\<close>

lemma same_shape_refl: "same_shape x x"
  by (cases x) (simp_all add: same_shape_def)

lemma same_shape_elementwise: "same_shape x y \<Longrightarrow> same_shape (elementwise f x y) y"
  by (cases x; cases y) (simp_all add: same_shape_def elementwise_def)

lemma same_shape_zero_like: "same_shape (zero_like x) x"
  by (cases x) (simp_all add: same_shape_def zero_like_def)

lemma clone_eq: "this < length s \<Longrightarrow> clone s this = Inr (length s, s @ [s ! this])"
  by (cases "s ! this") (simp_all add: clone_def new_def)

lemma Amount_copy_eq:
  "m_impl a < length s \<Longrightarrow> Amount_copy s a = Inr (\<lparr>m_impl = length s\<rparr>, s @ [s ! m_impl a])"
  by (simp add: Amount_copy_def clone_eq)

text \<open>A loop run on a new object, with \<open>other\<close> an older one.\<close>

lemma dims_loop_fresh:
  assumes "other < length s" "s ! other = AmountDims os" "length es = length os"
  shows "dims_loop f (s @ [AmountDims es]) (length s) other 0 =
    Inr (s @ [AmountDims (map2 f es os)])"
proof -
  have "dims_loop f (s @ [AmountDims es]) (length s) other 0 =
    Inr ((s @ [AmountDims es])[length s := AmountDims (take 0 es @ map2 f (drop 0 es) (drop 0 os))])"
    using assms by (intro dims_loop_distinct) (simp_all add: nth_append)
  then show ?thesis by simp
qed

lemma add_fresh:
  assumes "other < length s" "same_shape x (s ! other)"
  shows "add bld (s @ [x]) (length s) other = Inr (s @ [elementwise (\<lambda>a b. a + b) x (s ! other)])"
proof (cases x)
  case AmountEmpty
  then show ?thesis using assms by (simp add: add_def elementwise_def)
next
  case (AmountDims es)
  with assms obtain os where os: "s ! other = AmountDims os" "length es = length os"
    by (cases "s ! other") (simp_all add: same_shape_def)
  with assms AmountDims show ?thesis
    by (simp add: add_def AmountDims_add_def elementwise_def nth_append dims_loop_fresh)
qed

lemma sub_fresh:
  assumes "other < length s" "same_shape x (s ! other)"
  shows "sub bld (s @ [x]) (length s) other = Inr (s @ [elementwise (\<lambda>a b. a - b) x (s ! other)])"
proof (cases x)
  case AmountEmpty
  then show ?thesis using assms by (simp add: sub_def elementwise_def)
next
  case (AmountDims es)
  with assms obtain os where os: "s ! other = AmountDims os" "length es = length os"
    by (cases "s ! other") (simp_all add: same_shape_def)
  with assms AmountDims show ?thesis
    by (simp add: sub_def AmountDims_sub_def elementwise_def nth_append dims_loop_fresh)
qed

lemma operator_plus_value:
  assumes "m_impl a < length s" "m_impl b < length s" "same_shape (s ! m_impl a) (s ! m_impl b)"
  shows "operator_plus bld s a b =
    Inr (\<lparr>m_impl = length s\<rparr>, s @ [elementwise (\<lambda>x y. x + y) (s ! m_impl a) (s ! m_impl b)])"
  using assms by (simp add: operator_plus_def Amount_copy_eq operator_plus_eq_def add_fresh)

lemma operator_minus_value:
  assumes "m_impl a < length s" "m_impl b < length s" "same_shape (s ! m_impl a) (s ! m_impl b)"
  shows "operator_minus bld s a b =
    Inr (\<lparr>m_impl = length s\<rparr>, s @ [elementwise (\<lambda>x y. x - y) (s ! m_impl a) (s ! m_impl b)])"
  using assms by (simp add: operator_minus_def Amount_copy_eq operator_minus_eq_def sub_fresh)

lemma is_equal_value:
  assumes "this < length s" "other < length s" "same_shape (s ! this) (s ! other)"
  shows "is_equal bld s this other = Inr (s ! this = s ! other)"
  using assms
  by (cases "s ! this"; cases "s ! other")
    (simp_all add: is_equal_def AmountDims_is_equal_def same_shape_def is_equal_loop_drop)

lemma is_less_value:
  assumes "this < length s" "other < length s" "same_shape (s ! this) (s ! other)"
  shows "is_less bld s this other =
    Inr (case s ! this of AmountEmpty \<Rightarrow> False
         | AmountDims es \<Rightarrow> ord_class.lexordp es (elems (s ! other)))"
  using assms
  by (cases "s ! this"; cases "s ! other")
    (auto simp add: is_less_def AmountDims_is_less_def same_shape_def is_less_loop_lexordp)

lemma map2_add_sub:
  fixes es os :: "('a::ab_group_add) list"
  shows "length es = length os \<Longrightarrow> map2 (\<lambda>x y. x - y) (map2 (\<lambda>x y. x + y) es os) os = es"
  by (induction es os rule: list_induct2) simp_all

lemma elementwise_add_sub:
  fixes x y :: "('a::ab_group_add) AmountImpl"
  shows "same_shape x y \<Longrightarrow>
    elementwise (\<lambda>a b. a - b) (elementwise (\<lambda>a b. a + b) x y) y = x"
  by (cases x; cases y) (simp_all add: same_shape_def elementwise_def map2_add_sub)


text \<open>The loop of \<open>is_less\<close> passes over the dimensions where the two vectors agree.\<close>

lemma is_less_loop_skip:
  assumes "\<forall>j. k \<le> j \<and> j < i \<longrightarrow> es ! j = os ! j" "k \<le> i" "i \<le> length es - 1"
    and "length es = length os"
  shows "is_less_loop es os k = is_less_loop es os i"
  using assms
proof (induction "i - k" arbitrary: k)
  case 0
  then show ?case by simp
next
  case (Suc n)
  then have "k < length es - 1" "es ! k = os ! k" "k < length os" by simp_all
  then have "is_less_loop es os k = is_less_loop es os (k + 1)"
    by (subst is_less_loop.simps) simp
  also have "\<dots> = is_less_loop es os i"
    using Suc.prems Suc.hyps(2) by (intro Suc.hyps(1)) simp_all
  finally show ?case .
qed

text \<open>\<open>set_zero\<close> and \<open>get_zero\<close>.\<close>

lemma AmountDims_set_zero_eq: "AmountDims_set_zero es = zero_like (AmountDims es)"
  by (simp add: AmountDims_set_zero_def zero_like_def map_replicate_const)

lemma set_zero_fresh: "set_zero (s @ [x]) (length s) = Inr (s @ [zero_like x])"
  by (cases x) (simp_all add: set_zero_def AmountDims_set_zero_eq, simp add: zero_like_def)

lemma get_zero_value:
  "m_impl a < length s \<Longrightarrow>
   get_zero s a = Inr (\<lparr>m_impl = length s\<rparr>, s @ [zero_like (s ! m_impl a)])"
  by (simp add: get_zero_def Amount_copy_eq set_zero_fresh)

lemma map2_zero_add:
  fixes es :: "('a::ab_group_add) list"
  shows "map2 (\<lambda>x y. x + y) (replicate (length es) 0) es = es"
  by (induction es) simp_all

lemma elementwise_zero_add:
  fixes x :: "('a::ab_group_add) AmountImpl"
  shows "elementwise (\<lambda>a b. a + b) (zero_like x) x = x"
  by (cases x) (simp_all add: elementwise_def zero_like_def map2_zero_add)

lemma map2_sub_self:
  fixes es :: "('a::ab_group_add) list"
  shows "map2 (\<lambda>x y. x - y) es es = replicate (length es) 0"
  by (induction es) simp_all

lemma elementwise_sub_self:
  fixes x :: "('a::ab_group_add) AmountImpl"
  shows "elementwise (\<lambda>a b. a - b) x x = zero_like x"
  by (cases x) (simp_all add: elementwise_def zero_like_def map2_sub_self)

lemma operator_eq_value:
  assumes "m_impl a < length s" "m_impl b < length s"
    and "same_shape (s ! m_impl a) (s ! m_impl b)"
  shows "operator_eq bld s a b = Inr (s ! m_impl a = s ! m_impl b)"
  unfolding operator_eq_def using assms by (rule is_equal_value)

text \<open>
  \<open>update_to_maxed\<close>, for two objects and for one object given twice.
\<close>

lemma std_max_eq_max: "std_max a b = max a b"
  by (auto simp add: std_max_def max_def)

lemma update_to_maxed_value:
  fixes s :: "('a::linorder) store"
  assumes "this < length s" "other < length s"
    and "s ! this = AmountDims es" "s ! other = AmountDims os" "length es = length os"
  shows "update_to_maxed bld s this other = Inr (s[this := AmountDims (map2 max es os)])"
proof (cases "this = other")
  case True
  with assms have os: "os = es" by simp
  have "dims_loop std_max s this this 0 =
      Inr (s[this := AmountDims (take 0 es @ map (\<lambda>x. std_max x x) (drop 0 es))])"
    using assms by (intro dims_loop_alias) simp_all
  moreover have "map (\<lambda>x. std_max x x) es = map2 max es es"
    by (induction es) (simp_all add: std_max_eq_max)
  ultimately show ?thesis
    using assms True os
    by (simp add: update_to_maxed_def AmountDims_update_to_maxed_def)
next
  case False
  have "dims_loop std_max s this other 0 =
      Inr (s[this := AmountDims (take 0 es @ map2 std_max (drop 0 es) (drop 0 os))])"
    using assms False by (intro dims_loop_distinct) simp_all
  moreover have "map2 std_max es os = map2 max es os"
    by (simp add: std_max_eq_max [abs_def])
  ultimately show ?thesis
    using assms
    by (simp add: update_to_maxed_def AmountDims_update_to_maxed_def)
qed

lemma update_to_maxed_self:
  fixes s :: "('a::linorder) store"
  assumes "this < length s"
  shows "update_to_maxed bld s this this = Inr s"
proof (cases "s ! this")
  case AmountEmpty
  with assms show ?thesis by (simp add: update_to_maxed_def)
next
  case (AmountDims es)
  have "map2 max es es = es" by (induction es) simp_all
  moreover have "s[this := AmountDims es] = s"
    using AmountDims by (metis list_update_id)
  ultimately show ?thesis
    using update_to_maxed_value [OF assms assms AmountDims AmountDims] by simp
qed

section \<open>The claims\<close>

text \<open>
  In the statements, \<open>bld\<close> is either build; \<open>Debug\<close> and \<open>NDEBUG\<close> name one.
  An amount is given with the store that holds its object; a call that returns
  gives \<open>Inr\<close> of its result and of the store after it.
\<close>

text \<open>
  C1. For two \<open>AmountDims\<close> vectors \<open>es\<close> and \<open>os\<close> of one length \<open>n\<close>, \<open>is_less\<close> is
  lexicographic over the dimensions \<open>0..n-2\<close>: at the first index \<open>i \<le> n-2\<close> where the
  vectors differ, \<open>es[i] < os[i]\<close> gives true and \<open>es[i] > os[i]\<close> gives false; when
  the dimensions \<open>0..n-2\<close> agree (and \<open>n > 0\<close>) the result is \<open>es[n-1] < os[n-1]\<close>; and
  for length 0 the result is false.
\<close>

theorem AmountDims_is_less_lexicographic:
  fixes es os :: "('a::linorder) list"
  assumes "length es = length os"
  shows "(es = [] \<longrightarrow> AmountDims_is_less bld es (AmountDims os) = Inr False) \<and>
    (\<forall>i<length es - 1. (\<forall>j<i. es ! j = os ! j) \<and> es ! i < os ! i \<longrightarrow>
       AmountDims_is_less bld es (AmountDims os) = Inr True) \<and>
    (\<forall>i<length es - 1. (\<forall>j<i. es ! j = os ! j) \<and> es ! i > os ! i \<longrightarrow>
       AmountDims_is_less bld es (AmountDims os) = Inr False) \<and>
    (es \<noteq> [] \<and> (\<forall>j<length es - 1. es ! j = os ! j) \<longrightarrow>
       AmountDims_is_less bld es (AmountDims os) = Inr (es ! (length es - 1) < os ! (length es - 1)))"
proof (intro conjI allI impI)
  assume "es = []"
  with assms show "AmountDims_is_less bld es (AmountDims os) = Inr False"
    by (simp add: AmountDims_is_less_def)
next
  fix i
  assume i: "i < length es - 1" and h: "(\<forall>j<i. es ! j = os ! j) \<and> es ! i < os ! i"
  then have "is_less_loop es os 0 = is_less_loop es os i"
    using assms by (intro is_less_loop_skip) simp_all
  also have "\<dots> = Inr True"
    using i h assms by (subst is_less_loop.simps) simp
  finally show "AmountDims_is_less bld es (AmountDims os) = Inr True"
    using assms i by (auto simp add: AmountDims_is_less_def)
next
  fix i
  assume i: "i < length es - 1" and h: "(\<forall>j<i. es ! j = os ! j) \<and> es ! i > os ! i"
  then have "is_less_loop es os 0 = is_less_loop es os i"
    using assms by (intro is_less_loop_skip) simp_all
  also have "\<dots> = Inr False"
    using i h assms by (subst is_less_loop.simps) auto
  finally show "AmountDims_is_less bld es (AmountDims os) = Inr False"
    using assms i by (auto simp add: AmountDims_is_less_def)
next
  assume h: "es \<noteq> [] \<and> (\<forall>j<length es - 1. es ! j = os ! j)"
  then have "is_less_loop es os 0 = is_less_loop es os (length es - 1)"
    using assms by (intro is_less_loop_skip) simp_all
  also have "\<dots> = Inr (es ! (length es - 1) < os ! (length es - 1))"
    using assms h by (subst is_less_loop.simps) (cases os; simp)
  finally show "AmountDims_is_less bld es (AmountDims os) =
      Inr (es ! (length es - 1) < os ! (length es - 1))"
    using assms h by (simp add: AmountDims_is_less_def)
qed

text \<open>
  The four cases at the spec's examples: \<open>[2,5,1]\<close> against \<open>[2,3,9]\<close> (dimension 1
  decides, \<open>5 > 3\<close>), the same two exchanged, \<open>[1,2]\<close> against itself, and the empty
  vector.
\<close>

theorem AmountDims_is_less_lexicographic_witness:
  "AmountDims_is_less Debug [2, 5, 1 :: int] (AmountDims [2, 3, 9]) = Inr False \<and>
   AmountDims_is_less Debug [2, 3, 9 :: int] (AmountDims [2, 5, 1]) = Inr True \<and>
   AmountDims_is_less Debug [1, 2 :: int] (AmountDims [1, 2]) = Inr False \<and>
   AmountDims_is_less Debug ([] :: int list) (AmountDims []) = Inr False"
proof (intro conjI)
  have len: "length [2, 5, 1 :: int] = length [2, 3, 9 :: int]" by simp
  have "\<forall>i<length [2, 5, 1 :: int] - 1.
      (\<forall>j<i. [2, 5, 1 :: int] ! j = [2, 3, 9] ! j) \<and> [2, 5, 1 :: int] ! i > [2, 3, 9] ! i \<longrightarrow>
       AmountDims_is_less Debug [2, 5, 1 :: int] (AmountDims [2, 3, 9]) = Inr False"
    using AmountDims_is_less_lexicographic [OF len] by blast
  from this [rule_format, of 1]
  show "AmountDims_is_less Debug [2, 5, 1 :: int] (AmountDims [2, 3, 9]) = Inr False"
    by simp
next
  have len: "length [2, 3, 9 :: int] = length [2, 5, 1 :: int]" by simp
  have "\<forall>i<length [2, 3, 9 :: int] - 1.
      (\<forall>j<i. [2, 3, 9 :: int] ! j = [2, 5, 1] ! j) \<and> [2, 3, 9 :: int] ! i < [2, 5, 1] ! i \<longrightarrow>
       AmountDims_is_less Debug [2, 3, 9 :: int] (AmountDims [2, 5, 1]) = Inr True"
    using AmountDims_is_less_lexicographic [OF len] by blast
  from this [rule_format, of 1]
  show "AmountDims_is_less Debug [2, 3, 9 :: int] (AmountDims [2, 5, 1]) = Inr True"
    by simp
next
  have len: "length [1, 2 :: int] = length [1, 2 :: int]" by simp
  have "[1, 2 :: int] \<noteq> [] \<and> (\<forall>j<length [1, 2 :: int] - 1. [1, 2 :: int] ! j = [1, 2] ! j) \<longrightarrow>
       AmountDims_is_less Debug [1, 2 :: int] (AmountDims [1, 2]) =
       Inr ([1, 2 :: int] ! (length [1, 2 :: int] - 1) < [1, 2] ! (length [1, 2 :: int] - 1))"
    using AmountDims_is_less_lexicographic [OF len] by blast
  then show "AmountDims_is_less Debug [1, 2 :: int] (AmountDims [1, 2]) = Inr False"
    by simp
next
  have len: "length ([] :: int list) = length ([] :: int list)" by simp
  show "AmountDims_is_less Debug ([] :: int list) (AmountDims []) = Inr False"
    using AmountDims_is_less_lexicographic [OF len] by blast
qed


text \<open>
  C2. For two amounts \<open>a\<close> and \<open>b\<close> of the same shape, \<open>is_less\<close> and \<open>is_equal\<close> both
  return, and \<open>a <= b\<close> returns true exactly when one of them returns true (and returns
  false otherwise).
\<close>

theorem operator_le_is_less_or_equal:
  fixes s :: "('a::linorder) store"
  assumes "m_impl a < length s" "m_impl b < length s"
    and "same_shape (s ! m_impl a) (s ! m_impl b)"
  shows "\<exists>l e. is_less bld s (m_impl a) (m_impl b) = Inr l \<and>
     is_equal bld s (m_impl a) (m_impl b) = Inr e \<and>
     operator_le bld s a b = Inr (l \<or> e)"
proof -
  obtain l where l: "is_less bld s (m_impl a) (m_impl b) = Inr l"
    using is_less_value [OF assms] by simp
  obtain e where e: "is_equal bld s (m_impl a) (m_impl b) = Inr e"
    using is_equal_value [OF assms] by simp
  have "operator_le bld s a b = Inr (l \<or> e)"
    using l e by (cases l) (simp_all add: operator_le_def)
  with l e show ?thesis by blast
qed

text \<open>The spec's example 2: \<open>a = [1,2]\<close>, \<open>b = [1,2]\<close>, \<open>a <= b\<close> is true.\<close>

theorem operator_le_is_less_or_equal_witness:
  "same_shape ([AmountDims [1, 2 :: int], AmountDims [1, 2]] ! 0)
     ([AmountDims [1, 2 :: int], AmountDims [1, 2]] ! 1) \<and>
   is_less Debug [AmountDims [1, 2 :: int], AmountDims [1, 2]] 0 1 = Inr False \<and>
   is_equal Debug [AmountDims [1, 2 :: int], AmountDims [1, 2]] 0 1 = Inr True \<and>
   operator_le Debug [AmountDims [1, 2 :: int], AmountDims [1, 2]] \<lparr>m_impl = 0\<rparr> \<lparr>m_impl = 1\<rparr> = Inr True"
proof -
  let ?s = "[AmountDims [1, 2 :: int], AmountDims [1, 2]]"
  let ?a = "\<lparr>m_impl = 0\<rparr>" and ?b = "\<lparr>m_impl = 1\<rparr>"
  have h: "m_impl ?a < length ?s" "m_impl ?b < length ?s"
    "same_shape (?s ! m_impl ?a) (?s ! m_impl ?b)"
    by (simp_all add: same_shape_def)
  have l: "is_less Debug ?s 0 1 = Inr False"
    by (simp add: is_less_def AmountDims_is_less_def is_less_loop.simps)
  have e: "is_equal Debug ?s 0 1 = Inr True"
    by (simp add: is_equal_def AmountDims_is_equal_def is_equal_loop.simps)
  from operator_le_is_less_or_equal [OF h, of Debug] l e
  have "operator_le Debug ?s ?a ?b = Inr True" by auto
  with h l e show ?thesis by simp
qed

text \<open>
  C3, as the source states it: for each of \<open>is_less\<close>, \<open>is_equal\<close>, \<open>add\<close>, \<open>sub\<close> and
  \<open>update_to_maxed\<close> on two \<open>AmountDims\<close> objects of different lengths, an assertion
  fires in debug builds, and the operation never silently truncates or pads either
  operand. The second half does not hold of the build without assertions, where
  the \<open>assert\<close> is empty and the loops run over the receiver's dimensions: with the
  receiver \<open>[1,2]\<close> and a longer \<open>other\<close> all five calls return, having read only
  the first two dimensions of \<open>other\<close>: against \<open>[1,2,3]\<close>, \<open>is_equal\<close> says the
  two are equal, \<open>add\<close> leaves \<open>[2,4]\<close> and \<open>sub\<close> leaves \<open>[0,0]\<close>; against
  \<open>[1,5,3]\<close>, \<open>update_to_maxed\<close> leaves \<open>[1,5]\<close>.
\<close>

theorem length_mismatch_unchecked_in_NDEBUG:
  "is_less NDEBUG [AmountDims [1, 2 :: int], AmountDims [1, 2, 3]] 0 1 = Inr False \<and>
   is_equal NDEBUG [AmountDims [1, 2 :: int], AmountDims [1, 2, 3]] 0 1 = Inr True \<and>
   add NDEBUG [AmountDims [1, 2 :: int], AmountDims [1, 2, 3]] 0 1 =
     Inr [AmountDims [2, 4], AmountDims [1, 2, 3]] \<and>
   sub NDEBUG [AmountDims [1, 2 :: int], AmountDims [1, 2, 3]] 0 1 =
     Inr [AmountDims [0, 0], AmountDims [1, 2, 3]] \<and>
   update_to_maxed NDEBUG [AmountDims [1, 2 :: int], AmountDims [1, 5, 3]] 0 1 =
     Inr [AmountDims [1, 5], AmountDims [1, 5, 3]]"
  by (simp add: is_less_def AmountDims_is_less_def is_less_loop.simps
      is_equal_def AmountDims_is_equal_def is_equal_loop.simps
      add_def AmountDims_add_def sub_def AmountDims_sub_def
      update_to_maxed_def AmountDims_update_to_maxed_def dims_loop.simps std_max_def)

text \<open>
  C3, amended to the build with assertions: there each of \<open>is_less\<close>, \<open>is_equal\<close>,
  \<open>add\<close>, \<open>sub\<close> and \<open>update_to_maxed\<close>, called on two \<open>AmountDims\<close> objects of
  different lengths, ends in the failed assertion, whatever the elements are and
  whichever of the two is the longer: the sizes are compared before any element
  is read or written, and the call returns no value and no store, so that no
  operand is cut or filled up.
\<close>

theorem length_mismatch_fails_assertion:
  fixes s :: "('a::{linorder,ab_group_add}) store"
  assumes "this < length s" "other < length s"
    and "s ! this = AmountDims es" "s ! other = AmountDims os"
    and "length es \<noteq> length os"
  shows "is_less Debug s this other = Inl AssertionFailed \<and>
    is_equal Debug s this other = Inl AssertionFailed \<and>
    add Debug s this other = Inl AssertionFailed \<and>
    sub Debug s this other = Inl AssertionFailed \<and>
    update_to_maxed Debug s this other = Inl AssertionFailed"
proof -
  have "is_less Debug s this other = Inl AssertionFailed"
    using assms by (simp add: is_less_def AmountDims_is_less_def)
  moreover have "is_equal Debug s this other = Inl AssertionFailed"
    using assms by (simp add: is_equal_def AmountDims_is_equal_def)
  moreover have "add Debug s this other = Inl AssertionFailed"
    using assms by (simp add: add_def AmountDims_add_def)
  moreover have "sub Debug s this other = Inl AssertionFailed"
    using assms by (simp add: sub_def AmountDims_sub_def)
  moreover have "update_to_maxed Debug s this other = Inl AssertionFailed"
    using assms by (simp add: update_to_maxed_def AmountDims_update_to_maxed_def)
  ultimately show ?thesis by blast
qed

text \<open>
  The spec's example 3, a 2-dimensional amount with a 3-dimensional one, with the
  shorter and with the longer as the receiver. (Without the assertion the first
  returns, as shown above, and the second reads \<open>other.elems[2]\<close>, past the end.)
\<close>

theorem length_mismatch_fails_assertion_witness:
  "length [1, 2 :: int] \<noteq> length [1, 2, 3 :: int] \<and>
   is_less Debug [AmountDims [1, 2 :: int], AmountDims [1, 2, 3]] 0 1 = Inl AssertionFailed \<and>
   is_equal Debug [AmountDims [1, 2 :: int], AmountDims [1, 2, 3]] 0 1 = Inl AssertionFailed \<and>
   add Debug [AmountDims [1, 2 :: int], AmountDims [1, 2, 3]] 0 1 = Inl AssertionFailed \<and>
   sub Debug [AmountDims [1, 2 :: int], AmountDims [1, 2, 3]] 0 1 = Inl AssertionFailed \<and>
   update_to_maxed Debug [AmountDims [1, 2 :: int], AmountDims [1, 2, 3]] 0 1 =
     Inl AssertionFailed \<and>
   is_less Debug [AmountDims [1, 2 :: int], AmountDims [1, 2, 3]] 1 0 = Inl AssertionFailed \<and>
   is_equal Debug [AmountDims [1, 2 :: int], AmountDims [1, 2, 3]] 1 0 = Inl AssertionFailed \<and>
   add Debug [AmountDims [1, 2 :: int], AmountDims [1, 2, 3]] 1 0 = Inl AssertionFailed \<and>
   sub Debug [AmountDims [1, 2 :: int], AmountDims [1, 2, 3]] 1 0 = Inl AssertionFailed \<and>
   update_to_maxed Debug [AmountDims [1, 2 :: int], AmountDims [1, 2, 3]] 1 0 =
     Inl AssertionFailed"
proof -
  let ?s = "[AmountDims [1, 2 :: int], AmountDims [1, 2, 3]]"
  have h: "0 < length ?s" "1 < length ?s" "?s ! 0 = AmountDims [1, 2]"
    "?s ! 1 = AmountDims [1, 2, 3]" "length [1, 2 :: int] \<noteq> length [1, 2, 3 :: int]"
    by simp_all
  have h': "length [1, 2, 3 :: int] \<noteq> length [1, 2 :: int]"
    by simp
  from length_mismatch_fails_assertion [OF h(1,2,3,4,5)]
    length_mismatch_fails_assertion [OF h(2,1,4,3) h'] h(5)
  show ?thesis by simp
qed

text \<open>
  C4. For two amounts \<open>a\<close> and \<open>b\<close> of the same shape: \<open>a + b\<close> and \<open>a - b\<close> each return
  a new wrapper \<open>c\<close> (its object is at an address the store did not have), which is
  the copy of \<open>a\<close> after \<open>c += b\<close>, respectively \<open>c -= b\<close>; the store is the old one
  with the one new object, the sum (the difference) of the two operands dimension by
  dimension, so that neither operand has changed; and \<open>(a + b) - b == a\<close> is true.
\<close>

theorem add_then_sub_round_trip:
  fixes s :: "('a::ab_group_add) store"
  assumes "m_impl a < length s" "m_impl b < length s"
    and "same_shape (s ! m_impl a) (s ! m_impl b)"
  shows "\<exists>c s0 s1 s1' d s2.
     Amount_copy s a = Inr (c, s0) \<and> m_impl c = length s \<and> s0 = s @ [s ! m_impl a] \<and>
     operator_plus_eq bld s0 c b = Inr s1 \<and> operator_plus bld s a b = Inr (c, s1) \<and>
     s1 = s @ [elementwise (\<lambda>x y. x + y) (s ! m_impl a) (s ! m_impl b)] \<and>
     operator_minus_eq bld s0 c b = Inr s1' \<and> operator_minus bld s a b = Inr (c, s1') \<and>
     s1' = s @ [elementwise (\<lambda>x y. x - y) (s ! m_impl a) (s ! m_impl b)] \<and>
     operator_minus bld s1 c b = Inr (d, s2) \<and> m_impl d = length s1 \<and> take (length s) s2 = s \<and>
     operator_eq bld s2 d a = Inr True"
proof -
  let ?A = "s ! m_impl a" and ?B = "s ! m_impl b"
  let ?c = "\<lparr>m_impl = length s\<rparr>" and ?d = "\<lparr>m_impl = Suc (length s)\<rparr>"
  let ?sum = "elementwise (\<lambda>x y. x + y) ?A ?B"
  let ?s1 = "s @ [?sum]"
  let ?s2 = "?s1 @ [?A]"
  have copy: "Amount_copy s a = Inr (?c, s @ [?A])"
    using assms by (simp add: Amount_copy_eq)
  have pe: "operator_plus_eq bld (s @ [?A]) ?c b = Inr ?s1"
    using assms by (simp add: operator_plus_eq_def add_fresh)
  have me: "operator_minus_eq bld (s @ [?A]) ?c b =
      Inr (s @ [elementwise (\<lambda>x y. x - y) ?A ?B])"
    using assms by (simp add: operator_minus_eq_def sub_fresh)
  have plus: "operator_plus bld s a b = Inr (?c, ?s1)"
    using assms by (rule operator_plus_value)
  have minus: "operator_minus bld s a b = Inr (?c, s @ [elementwise (\<lambda>x y. x - y) ?A ?B])"
    using assms by (rule operator_minus_value)
  have "operator_minus bld ?s1 ?c b =
      Inr (\<lparr>m_impl = length ?s1\<rparr>,
        ?s1 @ [elementwise (\<lambda>x y. x - y) (?s1 ! m_impl ?c) (?s1 ! m_impl b)])"
    using assms by (intro operator_minus_value) (simp_all add: nth_append same_shape_elementwise)
  then have undo: "operator_minus bld ?s1 ?c b = Inr (?d, ?s2)"
    using assms by (simp add: nth_append elementwise_add_sub)
  have "operator_eq bld ?s2 ?d a = Inr (?s2 ! m_impl ?d = ?s2 ! m_impl a)"
    unfolding operator_eq_def using assms
    by (intro is_equal_value) (simp_all add: nth_append same_shape_refl)
  then have eq: "operator_eq bld ?s2 ?d a = Inr True"
    using assms by (simp add: nth_append)
  from copy pe me plus minus undo eq show ?thesis
    by (intro exI [of _ ?c] exI [of _ "s @ [?A]"] exI [of _ ?s1]
        exI [of _ "s @ [elementwise (\<lambda>x y. x - y) ?A ?B]"] exI [of _ ?d] exI [of _ ?s2]) simp
qed

text \<open>
  The spec's example 1, \<open>[2,5,1] + [2,3,9] = [4,8,10]\<close>, and back; and on unsigned 8-bit
  capacities \<open>[255,7] + [1,250]\<close>, where both sums wrap around, and back.
\<close>

theorem add_then_sub_round_trip_witness:
  "same_shape ([AmountDims [2, 5, 1 :: int], AmountDims [2, 3, 9]] ! 0)
     ([AmountDims [2, 5, 1 :: int], AmountDims [2, 3, 9]] ! 1) \<and>
   operator_plus Debug [AmountDims [2, 5, 1 :: int], AmountDims [2, 3, 9]] \<lparr>m_impl = 0\<rparr> \<lparr>m_impl = 1\<rparr> =
     Inr (\<lparr>m_impl = 2\<rparr>, [AmountDims [2, 5, 1], AmountDims [2, 3, 9], AmountDims [4, 8, 10]]) \<and>
   operator_minus Debug [AmountDims [2, 5, 1 :: int], AmountDims [2, 3, 9], AmountDims [4, 8, 10]]
       \<lparr>m_impl = 2\<rparr> \<lparr>m_impl = 1\<rparr> =
     Inr (\<lparr>m_impl = 3\<rparr>,
       [AmountDims [2, 5, 1], AmountDims [2, 3, 9], AmountDims [4, 8, 10], AmountDims [2, 5, 1]]) \<and>
   operator_eq Debug [AmountDims [2, 5, 1 :: int], AmountDims [2, 3, 9], AmountDims [4, 8, 10],
       AmountDims [2, 5, 1]] \<lparr>m_impl = 3\<rparr> \<lparr>m_impl = 0\<rparr> = Inr True \<and>
   operator_plus Debug [AmountDims [255 :: 8 word, 7], AmountDims [1, 250]] \<lparr>m_impl = 0\<rparr> \<lparr>m_impl = 1\<rparr> =
     Inr (\<lparr>m_impl = 2\<rparr>, [AmountDims [255, 7], AmountDims [1, 250], AmountDims [0, 1]]) \<and>
   operator_minus Debug [AmountDims [255 :: 8 word, 7], AmountDims [1, 250], AmountDims [0, 1]]
       \<lparr>m_impl = 2\<rparr> \<lparr>m_impl = 1\<rparr> =
     Inr (\<lparr>m_impl = 3\<rparr>,
       [AmountDims [255, 7], AmountDims [1, 250], AmountDims [0, 1], AmountDims [255, 7]]) \<and>
   operator_eq Debug [AmountDims [255 :: 8 word, 7], AmountDims [1, 250], AmountDims [0, 1],
       AmountDims [255, 7]] \<lparr>m_impl = 3\<rparr> \<lparr>m_impl = 0\<rparr> = Inr True"
proof -
  let ?a = "\<lparr>m_impl = 0\<rparr>" and ?b = "\<lparr>m_impl = 1\<rparr>"
  let ?s = "[AmountDims [2, 5, 1 :: int], AmountDims [2, 3, 9]]"
  have h: "m_impl ?a < length ?s" "m_impl ?b < length ?s"
    "same_shape (?s ! m_impl ?a) (?s ! m_impl ?b)"
    by (simp_all add: same_shape_def)
  from add_then_sub_round_trip [OF h] obtain c s0 s1 s1' d s2 where r:
    "m_impl c = length ?s"
    "operator_plus Debug ?s ?a ?b = Inr (c, s1)"
    "s1 = ?s @ [elementwise (\<lambda>x y. x + y) (?s ! m_impl ?a) (?s ! m_impl ?b)]"
    "operator_minus Debug s1 c ?b = Inr (d, s2)" "m_impl d = length s1" "take (length ?s) s2 = ?s"
    "operator_eq Debug s2 d ?a = Inr True"
    by blast
  have c: "c = \<lparr>m_impl = 2\<rparr>" using r(1) by simp
  have s1: "s1 = [AmountDims [2, 5, 1], AmountDims [2, 3, 9], AmountDims [4, 8, 10]]"
    using r(3) by (simp add: elementwise_def)
  have d: "d = \<lparr>m_impl = 3\<rparr>" using r(5) s1 by simp
  have "operator_minus Debug s1 c ?b =
      Inr (\<lparr>m_impl = 3\<rparr>,
        [AmountDims [2, 5, 1], AmountDims [2, 3, 9], AmountDims [4, 8, 10], AmountDims [2, 5, 1]])"
    unfolding s1 c
    by (simp add: operator_minus_def Amount_copy_def clone_def new_def operator_minus_eq_def
        sub_def AmountDims_sub_def dims_loop.simps)
  with r(4) have s2: "s2 = [AmountDims [2, 5, 1], AmountDims [2, 3, 9], AmountDims [4, 8, 10],
      AmountDims [2, 5, 1]]"
    by simp
  from h r(2,4,7) have ints:
    "same_shape (?s ! 0) (?s ! 1) \<and>
     operator_plus Debug ?s ?a ?b =
       Inr (\<lparr>m_impl = 2\<rparr>, [AmountDims [2, 5, 1], AmountDims [2, 3, 9], AmountDims [4, 8, 10]]) \<and>
     operator_minus Debug [AmountDims [2, 5, 1 :: int], AmountDims [2, 3, 9], AmountDims [4, 8, 10]]
         \<lparr>m_impl = 2\<rparr> ?b =
       Inr (\<lparr>m_impl = 3\<rparr>,
         [AmountDims [2, 5, 1], AmountDims [2, 3, 9], AmountDims [4, 8, 10], AmountDims [2, 5, 1]]) \<and>
     operator_eq Debug [AmountDims [2, 5, 1 :: int], AmountDims [2, 3, 9], AmountDims [4, 8, 10],
         AmountDims [2, 5, 1]] \<lparr>m_impl = 3\<rparr> ?a = Inr True"
    unfolding c s1 d s2 by simp
  let ?w = "[AmountDims [255 :: 8 word, 7], AmountDims [1, 250]]"
  have hw: "m_impl ?a < length ?w" "m_impl ?b < length ?w"
    "same_shape (?w ! m_impl ?a) (?w ! m_impl ?b)"
    by (simp_all add: same_shape_def)
  from add_then_sub_round_trip [OF hw] obtain c s0 w1 w1' d w2 where w:
    "m_impl c = length ?w"
    "operator_plus Debug ?w ?a ?b = Inr (c, w1)"
    "w1 = ?w @ [elementwise (\<lambda>x y. x + y) (?w ! m_impl ?a) (?w ! m_impl ?b)]"
    "operator_minus Debug w1 c ?b = Inr (d, w2)" "m_impl d = length w1" "take (length ?w) w2 = ?w"
    "operator_eq Debug w2 d ?a = Inr True"
    by blast
  have c: "c = \<lparr>m_impl = 2\<rparr>" using w(1) by simp
  have w1: "w1 = [AmountDims [255, 7], AmountDims [1, 250], AmountDims [0, 1]]"
    using w(3) by (simp add: elementwise_def)
  have d: "d = \<lparr>m_impl = 3\<rparr>" using w(5) w1 by simp
  have "operator_minus Debug w1 c ?b =
      Inr (\<lparr>m_impl = 3\<rparr>,
        [AmountDims [255, 7], AmountDims [1, 250], AmountDims [0, 1], AmountDims [255, 7]])"
    unfolding w1 c
    by (simp add: operator_minus_def Amount_copy_def clone_def new_def operator_minus_eq_def
        sub_def AmountDims_sub_def dims_loop.simps)
  with w(4) have w2: "w2 = [AmountDims [255, 7], AmountDims [1, 250], AmountDims [0, 1],
      AmountDims [255, 7]]"
    by simp
  from w(2,4,7) have words:
    "operator_plus Debug ?w ?a ?b =
       Inr (\<lparr>m_impl = 2\<rparr>, [AmountDims [255, 7], AmountDims [1, 250], AmountDims [0, 1]]) \<and>
     operator_minus Debug [AmountDims [255 :: 8 word, 7], AmountDims [1, 250], AmountDims [0, 1]]
         \<lparr>m_impl = 2\<rparr> ?b =
       Inr (\<lparr>m_impl = 3\<rparr>,
         [AmountDims [255, 7], AmountDims [1, 250], AmountDims [0, 1], AmountDims [255, 7]]) \<and>
     operator_eq Debug [AmountDims [255 :: 8 word, 7], AmountDims [1, 250], AmountDims [0, 1],
         AmountDims [255, 7]] \<lparr>m_impl = 3\<rparr> ?a = Inr True"
    unfolding c w1 d w2 by simp
  from ints words show ?thesis by simp
qed

text \<open>
  C5. For every amount \<open>a\<close>, \<open>a.get_zero()\<close> returns a new wrapper whose object has the
  class and the length of that of \<open>a\<close> and zero in every dimension; the store is the
  old one with that one new object, so that \<open>a\<close> has not changed; and
  \<open>a.get_zero() + a == a\<close> is true.
\<close>

theorem get_zero_is_zero_identity:
  fixes s :: "('a::ab_group_add) store"
  assumes "m_impl a < length s"
  shows "get_zero s a = Inr (\<lparr>m_impl = length s\<rparr>, s @ [zero_like (s ! m_impl a)]) \<and>
    same_shape (zero_like (s ! m_impl a)) (s ! m_impl a) \<and>
    (zero_like (s ! m_impl a) = AmountEmpty \<or> set (elems (zero_like (s ! m_impl a))) \<subseteq> {0}) \<and>
    operator_plus bld (s @ [zero_like (s ! m_impl a)]) \<lparr>m_impl = length s\<rparr> a =
      Inr (\<lparr>m_impl = Suc (length s)\<rparr>, s @ [zero_like (s ! m_impl a), s ! m_impl a]) \<and>
    operator_eq bld (s @ [zero_like (s ! m_impl a), s ! m_impl a]) \<lparr>m_impl = Suc (length s)\<rparr> a =
      Inr True"
proof -
  let ?A = "s ! m_impl a"
  let ?s1 = "s @ [zero_like ?A]"
  have zeros: "zero_like ?A = AmountEmpty \<or> set (elems (zero_like ?A)) \<subseteq> {0}"
    by (cases ?A) (auto simp add: zero_like_def)
  have "operator_plus bld ?s1 \<lparr>m_impl = length s\<rparr> a =
      Inr (\<lparr>m_impl = length ?s1\<rparr>,
        ?s1 @ [elementwise (\<lambda>x y. x + y) (?s1 ! m_impl \<lparr>m_impl = length s\<rparr>) (?s1 ! m_impl a)])"
    using assms by (intro operator_plus_value) (simp_all add: nth_append same_shape_zero_like)
  then have plus: "operator_plus bld ?s1 \<lparr>m_impl = length s\<rparr> a =
      Inr (\<lparr>m_impl = Suc (length s)\<rparr>, s @ [zero_like ?A, ?A])"
    using assms by (simp add: nth_append elementwise_zero_add)
  have "operator_eq bld (s @ [zero_like ?A, ?A]) \<lparr>m_impl = Suc (length s)\<rparr> a =
      Inr ((s @ [zero_like ?A, ?A]) ! m_impl \<lparr>m_impl = Suc (length s)\<rparr> =
        (s @ [zero_like ?A, ?A]) ! m_impl a)"
    using assms by (intro operator_eq_value) (simp_all add: nth_append same_shape_refl)
  then have "operator_eq bld (s @ [zero_like ?A, ?A]) \<lparr>m_impl = Suc (length s)\<rparr> a = Inr True"
    using assms by (simp add: nth_append)
  with assms zeros plus show ?thesis
    by (simp add: get_zero_value same_shape_zero_like)
qed

text \<open>At \<open>a = [2,5,1]\<close>: the zero is \<open>[0,0,0]\<close>.\<close>

theorem get_zero_is_zero_identity_witness:
  "get_zero [AmountDims [2, 5, 1 :: int]] \<lparr>m_impl = 0\<rparr> =
     Inr (\<lparr>m_impl = 1\<rparr>, [AmountDims [2, 5, 1], AmountDims [0, 0, 0]]) \<and>
   operator_plus Debug [AmountDims [2, 5, 1 :: int], AmountDims [0, 0, 0]] \<lparr>m_impl = 1\<rparr> \<lparr>m_impl = 0\<rparr> =
     Inr (\<lparr>m_impl = 2\<rparr>, [AmountDims [2, 5, 1], AmountDims [0, 0, 0], AmountDims [2, 5, 1]]) \<and>
   operator_eq Debug [AmountDims [2, 5, 1 :: int], AmountDims [0, 0, 0], AmountDims [2, 5, 1]]
     \<lparr>m_impl = 2\<rparr> \<lparr>m_impl = 0\<rparr> = Inr True"
proof -
  have h: "m_impl \<lparr>m_impl = 0\<rparr> < length [AmountDims [2, 5, 1 :: int]]" by simp
  have z: "zero_like (AmountDims [2, 5, 1 :: int]) = AmountDims [0, 0, 0]"
    by (simp add: zero_like_def numeral_3_eq_3)
  from get_zero_is_zero_identity [OF h] show ?thesis
    by (simp add: z eval_nat_numeral)
qed

text \<open>
  C6. For every amount \<open>a\<close>, \<open>a.update_to_maxed(a)\<close> leaves the store, and so \<open>a\<close>, as
  it was; and for \<open>AmountDims\<close> amounts \<open>a\<close> and \<open>b\<close> of one length, after
  \<open>a.update_to_maxed(b)\<close> the vector of \<open>a\<close> has the same length and holds in each
  dimension \<open>i\<close> the maximum of \<open>a[i]\<close> and \<open>b[i]\<close> as they were before the call (no
  other object changes).
\<close>

theorem update_to_maxed_is_elementwise_max:
  fixes s :: "('a::linorder) store"
  assumes "m_impl a < length s"
  shows "Amount_update_to_maxed bld s a a = Inr s \<and>
    (\<forall>(b :: Amount) es os. m_impl b < length s \<and> s ! m_impl a = AmountDims es \<and>
        s ! m_impl b = AmountDims os \<and> length es = length os \<longrightarrow>
      (\<exists>rs. Amount_update_to_maxed bld s a b = Inr (s[m_impl a := AmountDims rs]) \<and>
         length rs = length es \<and> (\<forall>i<length es. rs ! i = max (es ! i) (os ! i))))"
proof (intro conjI allI impI)
  show "Amount_update_to_maxed bld s a a = Inr s"
    using assms by (simp add: Amount_update_to_maxed_def update_to_maxed_self)
next
  fix b :: Amount and es os
  assume h: "m_impl b < length s \<and> s ! m_impl a = AmountDims es \<and>
    s ! m_impl b = AmountDims os \<and> length es = length os"
  then have "Amount_update_to_maxed bld s a b = Inr (s[m_impl a := AmountDims (map2 max es os)])"
    using assms by (simp add: Amount_update_to_maxed_def update_to_maxed_value)
  moreover have "length (map2 max es os) = length es" using h by simp
  moreover have "\<forall>i<length es. map2 max es os ! i = max (es ! i) (os ! i)"
    using h by simp
  ultimately show "\<exists>rs. Amount_update_to_maxed bld s a b = Inr (s[m_impl a := AmountDims rs]) \<and>
         length rs = length es \<and> (\<forall>i<length es. rs ! i = max (es ! i) (os ! i))"
    by blast
qed


text \<open>The spec's example 1: \<open>[2,5,1]\<close> maxed with \<open>[2,3,9]\<close> is \<open>[2,5,9]\<close>.\<close>

theorem update_to_maxed_is_elementwise_max_witness:
  "Amount_update_to_maxed Debug [AmountDims [2, 5, 1 :: int], AmountDims [2, 3, 9]]
     \<lparr>m_impl = 0\<rparr> \<lparr>m_impl = 0\<rparr> = Inr [AmountDims [2, 5, 1], AmountDims [2, 3, 9]] \<and>
   Amount_update_to_maxed Debug [AmountDims [2, 5, 1 :: int], AmountDims [2, 3, 9]]
     \<lparr>m_impl = 0\<rparr> \<lparr>m_impl = 1\<rparr> = Inr [AmountDims [2, 5, 9], AmountDims [2, 3, 9]] \<and>
   (\<exists>rs. Amount_update_to_maxed Debug [AmountDims [2, 5, 1 :: int], AmountDims [2, 3, 9]]
       \<lparr>m_impl = 0\<rparr> \<lparr>m_impl = 1\<rparr> =
       Inr ([AmountDims [2, 5, 1 :: int], AmountDims [2, 3, 9]][0 := AmountDims rs]) \<and>
     length rs = 3 \<and> rs ! 0 = max 2 2 \<and> rs ! 1 = max 5 3 \<and> rs ! 2 = max 1 9)"
proof -
  let ?s = "[AmountDims [2, 5, 1 :: int], AmountDims [2, 3, 9]]"
  let ?a = "\<lparr>m_impl = 0\<rparr>" and ?b = "\<lparr>m_impl = 1\<rparr>"
  have h: "m_impl ?a < length ?s" by simp
  note inst = update_to_maxed_is_elementwise_max [OF h]
  have self: "Amount_update_to_maxed Debug ?s ?a ?a = Inr ?s"
    using inst by (rule conjunct1)
  have "m_impl ?b < length ?s \<and> ?s ! m_impl ?a = AmountDims [2, 5, 1] \<and>
      ?s ! m_impl ?b = AmountDims [2, 3, 9] \<and> length [2, 5, 1 :: int] = length [2, 3, 9 :: int]"
    by simp
  with inst obtain rs where rs: "Amount_update_to_maxed Debug ?s ?a ?b = Inr (?s[m_impl ?a := AmountDims rs])"
    "length rs = length [2, 5, 1 :: int]"
    "\<forall>i<length [2, 5, 1 :: int]. rs ! i = max ([2, 5, 1] ! i) ([2, 3, 9] ! i)"
    by blast
  from rs(3) have "rs ! 0 = max 2 2" "rs ! 1 = max 5 3" "rs ! 2 = max 1 9"
    by (simp_all add: All_less_Suc eval_nat_numeral)
  with rs(1,2) have ex: "\<exists>rs. Amount_update_to_maxed Debug ?s ?a ?b = Inr (?s[0 := AmountDims rs]) \<and>
     length rs = 3 \<and> rs ! 0 = max 2 2 \<and> rs ! 1 = max 5 3 \<and> rs ! 2 = max 1 9"
    by (intro exI [of _ rs]) simp
  have "Amount_update_to_maxed Debug ?s ?a ?b = Inr [AmountDims [2, 5, 9], AmountDims [2, 3, 9]]"
    by (simp add: Amount_update_to_maxed_def update_to_maxed_def AmountDims_update_to_maxed_def
        dims_loop.simps std_max_def)
  with self ex show ?thesis by blast
qed

text \<open>
  C7. The default constructor makes an \<open>AmountEmpty\<close> object and owns it; and for two
  amounts \<open>a\<close> and \<open>b\<close> that both hold an \<open>AmountEmpty\<close>, \<open>a == b\<close> is true, \<open>a << b\<close> and
  \<open>b << a\<close> are false, and \<open>+=\<close>, \<open>-=\<close>, \<open>update_to_maxed\<close> and \<open>set_zero\<close> return
  the store as it was.
\<close>

theorem empty_amounts:
  fixes s :: "('a::{linorder,ab_group_add}) store"
  shows "Amount_default s = (\<lparr>m_impl = length s\<rparr>, s @ [AmountEmpty]) \<and>
    (\<forall>a b :: Amount. m_impl a < length s \<and> m_impl b < length s \<and>
        s ! m_impl a = AmountEmpty \<and> s ! m_impl b = AmountEmpty \<longrightarrow>
      operator_eq bld s a b = Inr True \<and>
      operator_lessless bld s a b = Inr False \<and> operator_lessless bld s b a = Inr False \<and>
      operator_plus_eq bld s a b = Inr s \<and> operator_minus_eq bld s a b = Inr s \<and>
      Amount_update_to_maxed bld s a b = Inr s \<and> set_zero s (m_impl a) = Inr s)"
  by (simp add: Amount_default_def new_def operator_eq_def is_equal_def
      operator_lessless_def is_less_def operator_plus_eq_def add_def
      operator_minus_eq_def sub_def Amount_update_to_maxed_def update_to_maxed_def
      set_zero_def)

text \<open>Two default-constructed amounts, made one after the other in an empty store.\<close>

theorem empty_amounts_witness:
  "Amount_default ([] :: int store) = (\<lparr>m_impl = 0\<rparr>, [AmountEmpty]) \<and>
   Amount_default [AmountEmpty :: int AmountImpl] = (\<lparr>m_impl = 1\<rparr>, [AmountEmpty, AmountEmpty]) \<and>
   operator_eq Debug [AmountEmpty :: int AmountImpl, AmountEmpty] \<lparr>m_impl = 0\<rparr> \<lparr>m_impl = 1\<rparr> = Inr True \<and>
   operator_lessless Debug [AmountEmpty :: int AmountImpl, AmountEmpty] \<lparr>m_impl = 0\<rparr> \<lparr>m_impl = 1\<rparr> =
     Inr False \<and>
   operator_lessless Debug [AmountEmpty :: int AmountImpl, AmountEmpty] \<lparr>m_impl = 1\<rparr> \<lparr>m_impl = 0\<rparr> =
     Inr False \<and>
   operator_plus_eq Debug [AmountEmpty :: int AmountImpl, AmountEmpty] \<lparr>m_impl = 0\<rparr> \<lparr>m_impl = 1\<rparr> =
     Inr [AmountEmpty, AmountEmpty] \<and>
   operator_minus_eq Debug [AmountEmpty :: int AmountImpl, AmountEmpty] \<lparr>m_impl = 0\<rparr> \<lparr>m_impl = 1\<rparr> =
     Inr [AmountEmpty, AmountEmpty] \<and>
   Amount_update_to_maxed Debug [AmountEmpty :: int AmountImpl, AmountEmpty] \<lparr>m_impl = 0\<rparr> \<lparr>m_impl = 1\<rparr> =
     Inr [AmountEmpty, AmountEmpty] \<and>
   set_zero [AmountEmpty :: int AmountImpl, AmountEmpty] 0 = Inr [AmountEmpty, AmountEmpty]"
proof -
  let ?s = "[AmountEmpty :: int AmountImpl, AmountEmpty]"
  let ?a = "\<lparr>m_impl = 0\<rparr>" and ?b = "\<lparr>m_impl = 1\<rparr>"
  have h: "m_impl ?a < length ?s \<and> m_impl ?b < length ?s \<and>
      ?s ! m_impl ?a = AmountEmpty \<and> ?s ! m_impl ?b = AmountEmpty"
    by simp
  have d0: "Amount_default ([] :: int store) = (\<lparr>m_impl = 0\<rparr>, [AmountEmpty])"
    using empty_amounts [of "[] :: int store"] by simp
  have d1: "Amount_default [AmountEmpty :: int AmountImpl] = (\<lparr>m_impl = 1\<rparr>, ?s)"
    using empty_amounts [of "[AmountEmpty :: int AmountImpl]"] by simp
  from empty_amounts [of ?s, THEN conjunct2, rule_format, OF h] d0 d1
  show ?thesis by simp
qed

text \<open>
  C8. An amount made from a dimension count \<open>n\<close> owns an \<open>AmountDims\<close> of length \<open>n\<close>
  with zero in every dimension; an amount made from a sequence of values owns an
  \<open>AmountDims\<close> with exactly that sequence, of its length.
\<close>

theorem constructors:
  fixes s :: "('a::zero) store"
  shows "Amount_impl s (AmountDims_size n) =
     (\<lparr>m_impl = length s\<rparr>, s @ [AmountDims (replicate n 0)]) \<and>
   length (elems (AmountDims_size n :: 'a AmountImpl)) = n \<and>
   Amount_impl s (AmountDims_elems xs) = (\<lparr>m_impl = length s\<rparr>, s @ [AmountDims xs]) \<and>
   length (elems (AmountDims_elems xs)) = length xs"
  by (simp add: Amount_impl_def new_def AmountDims_size_def AmountDims_elems_def)

text \<open>Three dimensions from a count, and the sequence \<open>[4,5]\<close>, in an empty store.\<close>

theorem constructors_witness:
  "Amount_impl [] (AmountDims_size 3 :: int AmountImpl) =
     (\<lparr>m_impl = 0\<rparr>, [AmountDims [0, 0, 0]]) \<and>
   Amount_impl [] (AmountDims_elems [4, 5 :: int]) = (\<lparr>m_impl = 0\<rparr>, [AmountDims [4, 5]])"
  using constructors [of "[] :: int store" 3 "[4, 5]"]
  by (simp add: numeral_3_eq_3)

text \<open>
  C9. For \<open>AmountDims\<close> amounts \<open>a\<close> and \<open>b\<close> of one length, \<open>a << b\<close>, \<open>b << a\<close> and
  \<open>a == b\<close> all return, and exactly one of them returns true.
\<close>

theorem trichotomy:
  fixes s :: "('a::linorder) store"
  assumes "m_impl a < length s" "m_impl b < length s"
    and "s ! m_impl a = AmountDims es" "s ! m_impl b = AmountDims os"
    and "length es = length os"
  shows "\<exists>l g e. operator_lessless bld s a b = Inr l \<and> operator_lessless bld s b a = Inr g \<and>
    operator_eq bld s a b = Inr e \<and>
    (l \<or> g \<or> e) \<and> \<not> (l \<and> g) \<and> \<not> (l \<and> e) \<and> \<not> (g \<and> e)"
proof -
  have sh: "same_shape (s ! m_impl a) (s ! m_impl b)" "same_shape (s ! m_impl b) (s ! m_impl a)"
    using assms by (simp_all add: same_shape_def)
  have l: "operator_lessless bld s a b = Inr (ord_class.lexordp es os)"
    using is_less_value [OF assms(1,2) sh(1)] assms by (simp add: operator_lessless_def)
  have g: "operator_lessless bld s b a = Inr (ord_class.lexordp os es)"
    using is_less_value [OF assms(2,1) sh(2)] assms by (simp add: operator_lessless_def)
  have e: "operator_eq bld s a b = Inr (es = os)"
    using operator_eq_value [OF assms(1,2) sh(1)] assms by simp
  have "ord_class.lexordp es os \<or> ord_class.lexordp os es \<or> es = os"
    using lexordp_linear [of es os] by blast
  moreover have "\<not> (ord_class.lexordp es os \<and> ord_class.lexordp os es)"
    using lexordp_antisym [of es os] by blast
  moreover have "\<not> (ord_class.lexordp es os \<and> es = os)" "\<not> (ord_class.lexordp os es \<and> es = os)"
    using lexordp_irreflexive' by blast+
  ultimately show ?thesis using l g e by blast
qed

text \<open>At \<open>a = [2,5,1]\<close> and \<open>b = [2,3,9]\<close>, only \<open>b << a\<close> is true.\<close>

theorem trichotomy_witness:
  "operator_lessless Debug [AmountDims [2, 5, 1 :: int], AmountDims [2, 3, 9]] \<lparr>m_impl = 0\<rparr> \<lparr>m_impl = 1\<rparr> =
     Inr False \<and>
   operator_lessless Debug [AmountDims [2, 5, 1 :: int], AmountDims [2, 3, 9]] \<lparr>m_impl = 1\<rparr> \<lparr>m_impl = 0\<rparr> =
     Inr True \<and>
   operator_eq Debug [AmountDims [2, 5, 1 :: int], AmountDims [2, 3, 9]] \<lparr>m_impl = 0\<rparr> \<lparr>m_impl = 1\<rparr> =
     Inr False"
proof -
  let ?s = "[AmountDims [2, 5, 1 :: int], AmountDims [2, 3, 9]]"
  let ?a = "\<lparr>m_impl = 0\<rparr>" and ?b = "\<lparr>m_impl = 1\<rparr>"
  have h: "m_impl ?a < length ?s" "m_impl ?b < length ?s"
    "?s ! m_impl ?a = AmountDims [2, 5, 1]" "?s ! m_impl ?b = AmountDims [2, 3, 9]"
    "length [2, 5, 1 :: int] = length [2, 3, 9 :: int]"
    by simp_all
  from trichotomy [OF h] obtain l g e where r:
    "operator_lessless Debug ?s ?a ?b = Inr l" "operator_lessless Debug ?s ?b ?a = Inr g"
    "operator_eq Debug ?s ?a ?b = Inr e"
    "l \<or> g \<or> e" "\<not> (l \<and> g)" "\<not> (l \<and> e)" "\<not> (g \<and> e)"
    by blast
  have "operator_lessless Debug ?s ?b ?a = Inr True"
    by (simp add: operator_lessless_def is_less_def AmountDims_is_less_def is_less_loop.simps)
  with r(2) have "g" by simp
  with r(5,7) have "\<not> l" "\<not> e" by blast+
  with r(1,2,3) \<open>g\<close> show ?thesis by simp
qed

text \<open>
  C10. For every amount \<open>a\<close>, of either class, \<open>a - a == a.get_zero()\<close> is true: the
  difference and the zero are two new objects, both the zero of the shape of \<open>a\<close>.
  (The operands of \<open>==\<close> are evaluated left to right here; the other order exchanges
  the two addresses.)
\<close>

theorem sub_self_is_get_zero:
  fixes s :: "('a::ab_group_add) store"
  assumes "m_impl a < length s"
  shows "operator_minus bld s a a = Inr (\<lparr>m_impl = length s\<rparr>, s @ [zero_like (s ! m_impl a)]) \<and>
    get_zero (s @ [zero_like (s ! m_impl a)]) a =
      Inr (\<lparr>m_impl = Suc (length s)\<rparr>, s @ [zero_like (s ! m_impl a), zero_like (s ! m_impl a)]) \<and>
    operator_eq bld (s @ [zero_like (s ! m_impl a), zero_like (s ! m_impl a)])
      \<lparr>m_impl = length s\<rparr> \<lparr>m_impl = Suc (length s)\<rparr> = Inr True"
proof -
  let ?A = "s ! m_impl a"
  let ?s1 = "s @ [zero_like ?A]"
  let ?s2 = "s @ [zero_like ?A, zero_like ?A]"
  have minus: "operator_minus bld s a a = Inr (\<lparr>m_impl = length s\<rparr>, ?s1)"
    using assms by (simp add: operator_minus_value same_shape_refl elementwise_sub_self)
  have "get_zero ?s1 a = Inr (\<lparr>m_impl = length ?s1\<rparr>, ?s1 @ [zero_like (?s1 ! m_impl a)])"
    using assms by (intro get_zero_value) simp
  then have zero: "get_zero ?s1 a = Inr (\<lparr>m_impl = Suc (length s)\<rparr>, ?s2)"
    using assms by (simp add: nth_append)
  have "operator_eq bld ?s2 \<lparr>m_impl = length s\<rparr> \<lparr>m_impl = Suc (length s)\<rparr> =
      Inr (?s2 ! m_impl \<lparr>m_impl = length s\<rparr> = ?s2 ! m_impl \<lparr>m_impl = Suc (length s)\<rparr>)"
    by (intro operator_eq_value) (simp_all add: nth_append same_shape_refl)
  then have "operator_eq bld ?s2 \<lparr>m_impl = length s\<rparr> \<lparr>m_impl = Suc (length s)\<rparr> = Inr True"
    by (simp add: nth_append)
  with minus zero show ?thesis by simp
qed

text \<open>At \<open>a = [2,5,1]\<close>: both sides are \<open>[0,0,0]\<close>.\<close>

theorem sub_self_is_get_zero_witness:
  "operator_minus Debug [AmountDims [2, 5, 1 :: int]] \<lparr>m_impl = 0\<rparr> \<lparr>m_impl = 0\<rparr> =
     Inr (\<lparr>m_impl = 1\<rparr>, [AmountDims [2, 5, 1], AmountDims [0, 0, 0]]) \<and>
   get_zero [AmountDims [2, 5, 1 :: int], AmountDims [0, 0, 0]] \<lparr>m_impl = 0\<rparr> =
     Inr (\<lparr>m_impl = 2\<rparr>, [AmountDims [2, 5, 1], AmountDims [0, 0, 0], AmountDims [0, 0, 0]]) \<and>
   operator_eq Debug [AmountDims [2, 5, 1 :: int], AmountDims [0, 0, 0], AmountDims [0, 0, 0]]
     \<lparr>m_impl = 1\<rparr> \<lparr>m_impl = 2\<rparr> = Inr True"
proof -
  have h: "m_impl \<lparr>m_impl = 0\<rparr> < length [AmountDims [2, 5, 1 :: int]]" by simp
  have z: "zero_like (AmountDims [2, 5, 1 :: int]) = AmountDims [0, 0, 0]"
    by (simp add: zero_like_def numeral_3_eq_3)
  from sub_self_is_get_zero [OF h] show ?thesis
    by (simp add: z eval_nat_numeral)
qed

end
